theory Spec2Isabelle
  imports Complex_Main
begin

section \<open>Python values and strings\<close>

text \<open>
  The program is the single function \<open>main\<close> of \<^verbatim>\<open>genmanifest.py\<close>. It reads the
  environment, walks a directory, loads JSON files, prints to standard output and writes
  one YAML file per group. Everything outside the function (the environment, the
  directory walk, what \<^verbatim>\<open>json.load\<close> returns or raises for a path, whether a file can
  be opened for writing, and how \<^verbatim>\<open>str()\<close> renders a value that is not a string) is
  an input of the model, collected in the record \<open>world\<close> below.

  A Python \<^verbatim>\<open>str\<close> is a \<open>string\<close>; a \<open>char\<close> stands for a code point below
  256. A \<^verbatim>\<open>float\<close> is kept by its value: the program never computes with one, it can
  only meet one as a dictionary key or print it.
\<close>

datatype pyfloat = Finite rat | NegZero | PosInf | NegInf | NaN

text \<open>The values \<^verbatim>\<open>json.load\<close> can return. A dict is the list of its items in
  insertion order.\<close>

datatype json =
    JNull
  | JBool bool
  | JInt int
  | JFloat pyfloat
  | JStr string
  | JArr "json list"
  | JObj "(string \<times> json) list"

type_synonym pydict = "(string \<times> json) list"

definition nl :: string where
  "nl = [CHR 0x0A]"

definition dquote :: string where
  "dquote = [CHR 0x22]"

definition backslash :: string where
  "backslash = [CHR 0x5C]"

text \<open>\<^verbatim>\<open>s.startswith(p)\<close> and \<^verbatim>\<open>s.endswith(p)\<close>.\<close>

definition startswith :: "string \<Rightarrow> string \<Rightarrow> bool" where
  "startswith s p = (take (length p) s = p)"

definition endswith :: "string \<Rightarrow> string \<Rightarrow> bool" where
  "endswith s p = (length p \<le> length s \<and> drop (length s - length p) s = p)"

text \<open>\<^verbatim>\<open>s.replace(old, new)\<close>: the occurrences of \<open>old\<close> are found from the left
  and do not overlap. With an empty \<open>old\<close>, Python puts \<open>new\<close> before every character
  and at the end.\<close>

fun replace_from :: "string \<Rightarrow> string \<Rightarrow> string \<Rightarrow> string" where
  "replace_from old new [] = []"
| "replace_from old new (c # cs) =
     (if startswith (c # cs) old
      then new @ replace_from old new (drop (length old - 1) cs)
      else c # replace_from old new cs)"

definition replace :: "string \<Rightarrow> string \<Rightarrow> string \<Rightarrow> string" where
  "replace s old new =
     (if old = [] then new @ concat (map (\<lambda>c. c # new) s)
      else replace_from old new s)"

text \<open>\<^verbatim>\<open>s.count(c)\<close> for a separator of one character.\<close>

definition count_char :: "string \<Rightarrow> char \<Rightarrow> nat" where
  "count_char s c = length (filter (\<lambda>x. x = c) s)"

text \<open>\<^verbatim>\<open>str.isspace\<close> on one character, for the code points below 256:
  TAB, LF, VT, FF, CR, FS, GS, RS, US, SPACE, NEL and NBSP.\<close>

definition isspace :: "char \<Rightarrow> bool" where
  "isspace c = (c \<in> set [CHR 0x09, CHR 0x0A, CHR 0x0B, CHR 0x0C, CHR 0x0D,
                          CHR 0x1C, CHR 0x1D, CHR 0x1E, CHR 0x1F, CHR 0x20,
                          CHR 0x85, CHR 0xA0])"

text \<open>\<^verbatim>\<open>s.strip()\<close>.\<close>

definition strip :: "string \<Rightarrow> string" where
  "strip s = rev (dropWhile isspace (rev (dropWhile isspace s)))"

text \<open>\<^verbatim>\<open>s.split(sep)\<close> for a separator of one character: the pieces between the
  separators, empty pieces included; an empty string gives one empty piece.\<close>

fun split :: "string \<Rightarrow> char \<Rightarrow> string list" where
  "split [] sep = [[]]"
| "split (c # cs) sep =
     (if c = sep then [] # split cs sep
      else (case split cs sep of
              [] \<Rightarrow> [[c]]
            | p # ps \<Rightarrow> (c # p) # ps))"

text \<open>\<^verbatim>\<open>os.sep\<close>, \<^verbatim>\<open>os.path.join\<close> with two arguments and
  \<^verbatim>\<open>os.path.basename\<close>, as \<^verbatim>\<open>posixpath\<close> defines them.\<close>

definition os_sep :: char where
  "os_sep = CHR ''/''"

definition path_join :: "string \<Rightarrow> string \<Rightarrow> string" where
  "path_join a b =
     (if startswith b [os_sep] then b
      else if a = [] \<or> endswith a [os_sep] then a @ b
      else a @ [os_sep] @ b)"

definition basename :: "string \<Rightarrow> string" where
  "basename p = rev (takeWhile (\<lambda>c. c \<noteq> os_sep) (rev p))"

section \<open>Dictionaries\<close>

text \<open>\<^verbatim>\<open>d.get(k, default)\<close>; \<^verbatim>\<open>d.get(k)\<close> is \<open>dict_get d k JNull\<close>.\<close>

definition dict_get :: "pydict \<Rightarrow> string \<Rightarrow> json \<Rightarrow> json" where
  "dict_get d k dflt = (case map_of d k of None \<Rightarrow> dflt | Some v \<Rightarrow> v)"

text \<open>\<^verbatim>\<open>d[k] = v\<close>: an existing key keeps its place.\<close>

fun dict_set :: "pydict \<Rightarrow> string \<Rightarrow> json \<Rightarrow> pydict" where
  "dict_set [] k v = [(k, v)]"
| "dict_set ((k', v') # d) k v =
     (if k' = k then (k, v) # d else (k', v') # dict_set d k v)"

text \<open>The dict display \<^verbatim>\<open>{**base, **data}\<close>: the items of \<open>data\<close> are stored one
  after the other into a copy of \<open>base\<close>.\<close>

definition dict_merge :: "pydict \<Rightarrow> pydict \<Rightarrow> pydict" where
  "dict_merge base data = fold (\<lambda>(k, v) d. dict_set d k v) data base"

text \<open>What can be a dictionary key: everything \<^verbatim>\<open>json.load\<close> returns except a list
  or a dict, whose \<^verbatim>\<open>hash\<close> raises \<^verbatim>\<open>TypeError\<close>.\<close>

fun hashable :: "json \<Rightarrow> bool" where
  "hashable (JArr xs) = False"
| "hashable (JObj d) = False"
| "hashable v = True"

text \<open>When two keys are the same key: Python compares \<^verbatim>\<open>bool\<close>, \<^verbatim>\<open>int\<close> and
  \<^verbatim>\<open>float\<close> by value (\<^verbatim>\<open>True == 1 == 1.0\<close>, \<^verbatim>\<open>-0.0 == 0\<close>); any other key is only
  equal to itself (the decoder returns one \<^verbatim>\<open>nan\<close> object, found again by identity).\<close>

fun num_value :: "json \<Rightarrow> rat option" where
  "num_value (JBool b) = Some (if b then 1 else 0)"
| "num_value (JInt i) = Some (of_int i)"
| "num_value (JFloat (Finite q)) = Some q"
| "num_value (JFloat NegZero) = Some 0"
| "num_value v = None"

definition key_eq :: "json \<Rightarrow> json \<Rightarrow> bool" where
  "key_eq a b =
     (case (num_value a, num_value b) of
        (Some x, Some y) \<Rightarrow> x = y
      | (None, None) \<Rightarrow> a = b
      | _ \<Rightarrow> False)"

section \<open>The world around the program, and what the program changes\<close>

text \<open>The exceptions that can reach the program. \<open>OSError\<close> stands for its subclasses
  too (\<^verbatim>\<open>FileNotFoundError\<close>, \<^verbatim>\<open>PermissionError\<close>), which the handler of
  \<open>main\<close> does not tell apart.\<close>

datatype exn =
    JSONDecodeError
  | OSError
  | UnicodeDecodeError
  | RecursionError
  | ValueError
  | TypeError
  | AttributeError

text \<open>
  \<^item> \<open>environ\<close>: \<^verbatim>\<open>os.environ\<close>;
  \<^item> \<open>os_walk top\<close>: the triples \<^verbatim>\<open>(root, dirs, files)\<close> that \<^verbatim>\<open>os.walk(top)\<close>
    yields, in order;
  \<^item> \<open>json_load path\<close>: what \<^verbatim>\<open>open(path, "r")\<close> followed by \<^verbatim>\<open>json.load\<close> does:
    the exception raised, with its message, or the decoded value;
  \<^item> \<open>open_w name\<close>: the exception \<^verbatim>\<open>open(name, "w")\<close> raises, if any;
  \<^item> \<open>py_str v\<close>: \<^verbatim>\<open>str(v)\<close> for a value that is not a \<^verbatim>\<open>str\<close>.

  The loop variable \<^verbatim>\<open>root\<close> of the source is \<open>dirpath\<close> here, and the directory
  \<^verbatim>\<open>KANIKO_ARTIFACTS_DIR\<close> a parameter \<open>topdir\<close> of the two loops over the walk.
\<close>

record world =
  environ :: "string \<rightharpoonup> string"
  os_walk :: "string \<Rightarrow> (string \<times> string list \<times> string list) list"
  json_load :: "string \<Rightarrow> (exn \<times> string) + json"
  open_w :: "string \<Rightarrow> exn option"
  py_str :: "json \<Rightarrow> string"

text \<open>The lines printed so far, and the files of the working directory with their
  contents.\<close>

record state =
  stdout :: "string list"
  cwd :: "string \<rightharpoonup> string"

datatype status = Returned | Raised exn

definition py_print :: "string \<Rightarrow> state \<Rightarrow> state" where
  "py_print line st = st\<lparr>stdout := stdout st @ [line]\<rparr>"

text \<open>\<^verbatim>\<open>os.environ.get(k, default)\<close>.\<close>

definition env_get :: "world \<Rightarrow> string \<Rightarrow> string \<Rightarrow> string" where
  "env_get w k dflt = (case environ w k of None \<Rightarrow> dflt | Some v \<Rightarrow> v)"

text \<open>A replacement field \<^verbatim>\<open>{v}\<close> of an f-string: a \<^verbatim>\<open>str\<close> is put in as it is.\<close>

definition fmt :: "world \<Rightarrow> json \<Rightarrow> string" where
  "fmt w v = (case v of JStr s \<Rightarrow> s | _ \<Rightarrow> py_str w v)"

section \<open>Step 1: the directory and its listing\<close>

definition KANIKO_ARTIFACTS_DIR :: "world \<Rightarrow> string" where
  "KANIKO_ARTIFACTS_DIR w = env_get w ''KANIKO_ARTIFACTS_DIR'' ''artifacts/kaniko-build''"

definition print_tree_entry ::
  "string \<Rightarrow> string \<times> string list \<times> string list \<Rightarrow> state \<Rightarrow> state" where
  "print_tree_entry topdir = (\<lambda>(dirpath, dirs, files) st.
     let level = count_char (replace dirpath topdir []) os_sep;
         indent = replicate (4 * level) CHR '' '';
         st1 = py_print (indent @ basename dirpath @ ''/'') st;
         subindent = replicate (4 * (level + 1)) CHR '' ''
     in fold (\<lambda>f. py_print (subindent @ f)) files st1)"

definition print_tree ::
  "string \<Rightarrow> (string \<times> string list \<times> string list) list \<Rightarrow> state \<Rightarrow> state" where
  "print_tree topdir walk st = fold (print_tree_entry topdir) walk st"

section \<open>Step 2: loading the artifacts\<close>

text \<open>The body of the \<^verbatim>\<open>try\<close> statement for one path. The handler catches
  \<open>JSONDecodeError\<close> and \<open>OSError\<close> only. A decoded value that is not a dict makes the
  dict display \<^verbatim>\<open>{"filepath": filepath, **data}\<close> raise \<open>TypeError\<close>, which the
  handler lets through.\<close>

definition try_load ::
  "world \<Rightarrow> string \<Rightarrow> pydict list \<Rightarrow> state \<Rightarrow> status \<times> pydict list \<times> state" where
  "try_load w filepath build_artifacts st =
     (case json_load w filepath of
        Inr data \<Rightarrow>
          (case data of
             JObj items \<Rightarrow>
               (Returned,
                build_artifacts @ [dict_merge [(''filepath'', JStr filepath)] items],
                py_print (''Valid JSON found: '' @ filepath) st)
           | _ \<Rightarrow> (Raised TypeError, build_artifacts, st))
      | Inl (e, msg) \<Rightarrow>
          if e = JSONDecodeError \<or> e = OSError
          then (Returned, build_artifacts,
                py_print (''Invalid JSON: '' @ filepath @ '' - '' @ msg) st)
          else (Raised e, build_artifacts, st))"

fun load_files ::
  "world \<Rightarrow> string \<Rightarrow> string list \<Rightarrow> pydict list \<Rightarrow> state
     \<Rightarrow> status \<times> pydict list \<times> state" where
  "load_files w dirpath [] build_artifacts st = (Returned, build_artifacts, st)"
| "load_files w dirpath (filename # files) build_artifacts st =
     (if \<not> endswith filename ''.json''
      then load_files w dirpath files build_artifacts st
      else (case try_load w (path_join dirpath filename) build_artifacts st of
              (Returned, build_artifacts', st') \<Rightarrow>
                load_files w dirpath files build_artifacts' st'
            | (Raised e, build_artifacts', st') \<Rightarrow> (Raised e, build_artifacts', st')))"

fun load_walk ::
  "world \<Rightarrow> (string \<times> string list \<times> string list) list \<Rightarrow> pydict list \<Rightarrow> state
     \<Rightarrow> status \<times> pydict list \<times> state" where
  "load_walk w [] build_artifacts st = (Returned, build_artifacts, st)"
| "load_walk w ((dirpath, dirs, files) # rest) build_artifacts st =
     (case load_files w dirpath files build_artifacts st of
        (Returned, build_artifacts', st') \<Rightarrow> load_walk w rest build_artifacts' st'
      | (Raised e, build_artifacts', st') \<Rightarrow> (Raised e, build_artifacts', st'))"

section \<open>Step 3: the variables taken from the environment\<close>

definition CI_COMMIT_REF_PROTECTED :: "world \<Rightarrow> string" where
  "CI_COMMIT_REF_PROTECTED w = env_get w ''CI_COMMIT_REF_PROTECTED'' []"

definition CI_COMMIT_TAG :: "world \<Rightarrow> string" where
  "CI_COMMIT_TAG w = env_get w ''CI_COMMIT_TAG'' []"

definition CI_PROJECT_ID :: "world \<Rightarrow> string" where
  "CI_PROJECT_ID w = env_get w ''CI_PROJECT_ID'' ''UNKNOWN_PROJECT_ID''"

definition CI_COMMIT_SHORT_SHA :: "world \<Rightarrow> string" where
  "CI_COMMIT_SHORT_SHA w = env_get w ''CI_COMMIT_SHORT_SHA'' ''0000000''"

definition CI_COMMIT_REF_SLUG :: "world \<Rightarrow> string" where
  "CI_COMMIT_REF_SLUG w = env_get w ''CI_COMMIT_REF_SLUG'' []"

definition TARGET_PROJECT :: "world \<Rightarrow> string" where
  "TARGET_PROJECT w =
     (if CI_COMMIT_REF_PROTECTED w = ''true'' \<or> CI_COMMIT_TAG w \<noteq> []
      then ''release'' else ''prerelease'')"

text \<open>The string \<open>TAGS\<close> after the two conditional \<^verbatim>\<open>+=\<close>.\<close>

definition TAGS :: "world \<Rightarrow> string" where
  "TAGS w =
     (let t0 = env_get w ''TAGS'' (CI_COMMIT_SHORT_SHA w);
          t1 = (if CI_COMMIT_REF_SLUG w \<noteq> [] then t0 @ '','' @ CI_COMMIT_REF_SLUG w else t0);
          t2 = (if CI_COMMIT_TAG w \<noteq> [] then t1 @ '','' @ CI_COMMIT_TAG w else t1)
      in t2)"

definition tags_list :: "world \<Rightarrow> string list" where
  "tags_list w = map strip (filter (\<lambda>tag. strip tag \<noteq> []) (split (TAGS w) CHR '',''))"

section \<open>Step 4: grouping\<close>

text \<open>\<^verbatim>\<open>grouped_by_dir[dirname].append(artifact)\<close> on a \<^verbatim>\<open>defaultdict(list)\<close>, kept
  as the list of its items in insertion order: a key that is there gets the artifact
  at the end of its list, a new key is added at the end with a list of one.\<close>

fun group_append ::
  "(json \<times> pydict list) list \<Rightarrow> json \<Rightarrow> pydict \<Rightarrow> (json \<times> pydict list) list" where
  "group_append [] dirname artifact = [(dirname, [artifact])]"
| "group_append ((k, artifacts) # groups) dirname artifact =
     (if key_eq k dirname then (k, artifacts @ [artifact]) # groups
      else (k, artifacts) # group_append groups dirname artifact)"

fun group_artifacts ::
  "(json \<times> pydict list) list \<Rightarrow> pydict list \<Rightarrow> exn + (json \<times> pydict list) list" where
  "group_artifacts grouped_by_dir [] = Inr grouped_by_dir"
| "group_artifacts grouped_by_dir (artifact # rest) =
     (let dirname = dict_get artifact ''dockerfiledirname'' (JStr ''unknown_directory'')
      in if hashable dirname
         then group_artifacts (group_append grouped_by_dir dirname artifact) rest
         else Inl TypeError)"

section \<open>Step 5: one manifest file per group\<close>

definition safe_dirname :: "string \<Rightarrow> string" where
  "safe_dirname dirname = replace (replace dirname ''/'' ''_'') backslash ''_''"

definition manifest_filename :: "string \<Rightarrow> string" where
  "manifest_filename dirname = ''manifest_'' @ safe_dirname dirname @ ''.yaml''"

text \<open>The arguments of the calls of \<^verbatim>\<open>yf.write\<close> for one group, in order.\<close>

definition manifest_writes :: "world \<Rightarrow> string \<Rightarrow> pydict list \<Rightarrow> string list" where
  "manifest_writes w dirname artifacts =
     (let has_amd64 = list_ex (\<lambda>a. dict_get a ''arch'' JNull = JStr ''amd64'') artifacts;
          has_arm64 = list_ex (\<lambda>a. dict_get a ''arch'' JNull = JStr ''arm64'') artifacts;
          amd64_artifact =
            (case find (\<lambda>a. dict_get a ''arch'' JNull = JStr ''amd64'') artifacts of
               None \<Rightarrow> [] | Some a \<Rightarrow> a);
          arm64_artifact =
            (case find (\<lambda>a. dict_get a ''arch'' JNull = JStr ''arm64'') artifacts of
               None \<Rightarrow> [] | Some a \<Rightarrow> a)
      in [''image: test.location.com/'' @ TARGET_PROJECT w @ ''/builds/'' @ CI_PROJECT_ID w
            @ ''/'' @ dirname @ ''/merged:'' @ CI_COMMIT_SHORT_SHA w @ nl,
          ''tags:'' @ nl]
         @ map (\<lambda>t. ''  - '' @ dquote @ t @ dquote @ nl) (tags_list w)
         @ [''manifests:'' @ nl]
         @ (if has_amd64
            then [''  - image: test.location.com/'' @ TARGET_PROJECT w @ ''/builds/''
                    @ CI_PROJECT_ID w @ ''/'' @ dirname @ ''/merged:''
                    @ CI_COMMIT_SHORT_SHA w @ nl,
                  ''    platform:'' @ nl,
                  ''      architecture: amd64'' @ nl,
                  ''      os: '' @ fmt w (dict_get amd64_artifact ''platform'' (JStr ''linux''))
                    @ nl]
            else [])
         @ (if has_arm64
            then [''  - image: test.location.com/'' @ TARGET_PROJECT w @ ''/builds/''
                    @ CI_PROJECT_ID w @ ''/'' @ dirname @ ''/merged:''
                    @ CI_COMMIT_SHORT_SHA w @ nl,
                  ''    platform:'' @ nl,
                  ''      architecture: arm64'' @ nl,
                  ''      os: '' @ fmt w (dict_get arm64_artifact ''platform'' (JStr ''linux''))
                    @ nl]
            else []))"

text \<open>The body of the loop over the groups. A key that is not a \<^verbatim>\<open>str\<close> has no
  \<^verbatim>\<open>replace\<close>: \<open>AttributeError\<close>, before any file is opened. \<^verbatim>\<open>open(name, "w")\<close>
  may raise; otherwise the file holds what was written, whatever it held before.\<close>

definition write_manifest :: "world \<Rightarrow> json \<times> pydict list \<Rightarrow> state \<Rightarrow> status \<times> state" where
  "write_manifest w = (\<lambda>(key, artifacts) st.
     case key of
       JStr dirname \<Rightarrow>
         (case open_w w (manifest_filename dirname) of
            Some e \<Rightarrow> (Raised e, st)
          | None \<Rightarrow>
              (Returned,
               py_print (''Generated '' @ manifest_filename dirname @ '' for '' @ dirname)
                 (st\<lparr>cwd := (cwd st)(manifest_filename dirname \<mapsto>
                                concat (manifest_writes w dirname artifacts))\<rparr>)))
     | _ \<Rightarrow> (Raised AttributeError, st))"

fun write_all :: "world \<Rightarrow> (json \<times> pydict list) list \<Rightarrow> state \<Rightarrow> status \<times> state" where
  "write_all w [] st = (Returned, st)"
| "write_all w (g # groups) st =
     (case write_manifest w g st of
        (Returned, st') \<Rightarrow> write_all w groups st'
      | (Raised e, st') \<Rightarrow> (Raised e, st'))"

section \<open>The program\<close>

text \<open>The function \<open>main\<close>, from the state it starts in to how it ends (it returns, or
  an exception leaves it) and the state it leaves. The source calls \<^verbatim>\<open>os.walk\<close> twice
  on the same directory, for the listing and for the loading; both calls are
  \<open>os_walk w topdir\<close>. The grouping and the values taken from the environment change
  no state; the line \<^verbatim>\<open>TAGS: ...\<close> is printed before the grouping.\<close>

definition main :: "world \<Rightarrow> state \<Rightarrow> status \<times> state" where
  "main w st0 =
     (let topdir = KANIKO_ARTIFACTS_DIR w;
          st1 = py_print (''Traversing directory: '' @ topdir) st0;
          st2 = print_tree topdir (os_walk w topdir) st1
      in case load_walk w (os_walk w topdir) [] st2 of
           (Raised e, build_artifacts, st3) \<Rightarrow> (Raised e, st3)
         | (Returned, build_artifacts, st3) \<Rightarrow>
             if build_artifacts = []
             then (Returned, py_print ''No valid JSON artifacts found. Exiting.'' st3)
             else (let st4 = py_print (''TAGS: '' @ TAGS w) st3
                   in case group_artifacts [] build_artifacts of
                        Inl e \<Rightarrow> (Raised e, st4)
                      | Inr grouped_by_dir \<Rightarrow> write_all w grouped_by_dir st4))"

section \<open>Notions used in the statements\<close>

text \<open>\<^verbatim>\<open>sep.join(pieces)\<close> for a separator of one character: the inverse of
  \<open>split\<close>.\<close>

fun join :: "char \<Rightarrow> string list \<Rightarrow> string" where
  "join c [] = []"
| "join c [p] = p"
| "join c (p # q # ps) = p @ c # join c (q # ps)"




text \<open>The image reference of a group, after the template
  \<^verbatim>\<open>test.location.com/<channel>/builds/<project_id>/<group_key>/merged:<short_sha>\<close>.\<close>

definition image_ref :: "world \<Rightarrow> string \<Rightarrow> string" where
  "image_ref w dirname =
     ''test.location.com/'' @ TARGET_PROJECT w @ ''/builds/'' @ CI_PROJECT_ID w @ ''/''
       @ dirname @ ''/merged:'' @ CI_COMMIT_SHORT_SHA w"

text \<open>The first artifact of a group whose field \<^verbatim>\<open>arch\<close> is the given string.\<close>

fun first_with_arch :: "string \<Rightarrow> pydict list \<Rightarrow> pydict option" where
  "first_with_arch arch [] = None"
| "first_with_arch arch (a # artifacts) =
     (if map_of a ''arch'' = Some (JStr arch) then Some a
      else first_with_arch arch artifacts)"

text \<open>The manifest entry of an architecture: nothing without a matching artifact,
  otherwise the image reference and a platform block whose \<^verbatim>\<open>os\<close> is the field
  \<^verbatim>\<open>platform\<close> of the first match, \<^verbatim>\<open>linux\<close> when it has none.\<close>

definition platform_entry :: "world \<Rightarrow> string \<Rightarrow> string \<Rightarrow> pydict list \<Rightarrow> string list" where
  "platform_entry w dirname arch artifacts =
     (case first_with_arch arch artifacts of
        None \<Rightarrow> []
      | Some a \<Rightarrow>
          [''  - image: '' @ image_ref w dirname @ nl,
           ''    platform:'' @ nl,
           ''      architecture: '' @ arch @ nl,
           ''      os: '' @ (case map_of a ''platform'' of None \<Rightarrow> ''linux'' | Some v \<Rightarrow> fmt w v)
             @ nl])"

text \<open>The paths of the files of a walk whose names end in \<^verbatim>\<open>.json\<close>, in the order
  in which the loading loop meets them.\<close>

definition json_paths :: "(string \<times> string list \<times> string list) list \<Rightarrow> string list" where
  "json_paths walk =
     concat (map (\<lambda>(dirpath, dirs, files).
                    map (path_join dirpath) (filter (\<lambda>f. endswith f ''.json'') files)) walk)"

text \<open>The loading loop over those paths.\<close>

fun load_paths ::
  "world \<Rightarrow> string list \<Rightarrow> pydict list \<Rightarrow> state \<Rightarrow> status \<times> pydict list \<times> state" where
  "load_paths w [] build_artifacts st = (Returned, build_artifacts, st)"
| "load_paths w (filepath # paths) build_artifacts st =
     (case try_load w filepath build_artifacts st of
        (Returned, build_artifacts', st') \<Rightarrow> load_paths w paths build_artifacts' st'
      | (Raised e, build_artifacts', st') \<Rightarrow> (Raised e, build_artifacts', st'))"

text \<open>The state after the directory listing of step 1.\<close>

definition after_listing :: "world \<Rightarrow> state \<Rightarrow> state" where
  "after_listing w st =
     print_tree (KANIKO_ARTIFACTS_DIR w) (os_walk w (KANIKO_ARTIFACTS_DIR w))
       (py_print (''Traversing directory: '' @ KANIKO_ARTIFACTS_DIR w) st)"


definition load_line :: "world \<Rightarrow> string \<Rightarrow> string" where
  "load_line w filepath =
     (case json_load w filepath of
        Inr data \<Rightarrow> ''Valid JSON found: '' @ filepath
      | Inl (e, msg) \<Rightarrow> ''Invalid JSON: '' @ filepath @ '' - '' @ msg)"

definition skipped :: "world \<Rightarrow> string \<Rightarrow> bool" where
  "skipped w filepath =
     (\<exists>msg. json_load w filepath = Inl (JSONDecodeError, msg)
           \<or> json_load w filepath = Inl (OSError, msg))"

definition loaded :: "world \<Rightarrow> string \<Rightarrow> bool" where
  "loaded w filepath = (\<exists>items. json_load w filepath = Inr (JObj items))"

text \<open>Every group has a string for its key and a file that can be opened.\<close>

definition can_write_all :: "world \<Rightarrow> (json \<times> pydict list) list \<Rightarrow> bool" where
  "can_write_all w groups =
     (\<forall>(k, artifacts) \<in> set groups. \<exists>dirname. k = JStr dirname \<and> open_w w (manifest_filename dirname) = None)"

text \<open>A state with more output and more files: the lines of \<open>d\<close> after those of
  \<open>st\<close>, the files of \<open>d\<close> over those of \<open>st\<close>.\<close>

definition extend :: "state \<Rightarrow> state \<Rightarrow> state" where
  "extend st d = \<lparr>stdout = stdout st @ stdout d, cwd = cwd st ++ cwd d\<rparr>"



section \<open>Example inputs\<close>

text \<open>A world with the environment \<open>e\<close> and an empty directory; environments with a
  ref slug and a commit tag, with a commit tag that holds a comma, with a protected
  ref, and with the protection flag spelt with a capital.\<close>

definition env_world :: "(string \<rightharpoonup> string) \<Rightarrow> world" where
  "env_world e = \<lparr>environ = e, os_walk = (\<lambda>d. []), json_load = (\<lambda>p. Inl (OSError, [])),
                   open_w = (\<lambda>n. None), py_str = (\<lambda>v. [])\<rparr>"

definition tag_world :: world where
  "tag_world = env_world [''CI_COMMIT_REF_SLUG'' \<mapsto> ''main'', ''CI_COMMIT_TAG'' \<mapsto> ''v1'']"

definition comma_tag_world :: world where
  "comma_tag_world = env_world [''CI_COMMIT_TAG'' \<mapsto> ''a,b'']"

definition protected_world :: world where
  "protected_world = env_world [''CI_COMMIT_REF_PROTECTED'' \<mapsto> ''true'']"

definition capital_true_world :: world where
  "capital_true_world = env_world [''CI_COMMIT_REF_PROTECTED'' \<mapsto> ''True'']"




text \<open>A world with no variable set, a state with nothing printed and no file, and
  three artifacts with an architecture.\<close>

definition plain_world :: world where
  "plain_world = env_world Map.empty"

definition empty_state :: state where
  "empty_state = \<lparr>stdout = [], cwd = Map.empty\<rparr>"


definition art_amd :: pydict where
  "art_amd = [(''filepath'', JStr ''x/amd.json''), (''dockerfiledirname'', JStr ''app''),
              (''arch'', JStr ''amd64'')]"

definition art_s390x :: pydict where
  "art_s390x = [(''filepath'', JStr ''x/s390x.json''), (''dockerfiledirname'', JStr ''lib''),
                (''arch'', JStr ''s390x'')]"


definition array_world :: world where
  "array_world =
     \<lparr>environ = Map.empty,
      os_walk = (\<lambda>d. [(d, [], [''ok.json'', ''list.json''])]),
      json_load = (\<lambda>p. if p = ''artifacts/kaniko-build/ok.json''
                        then Inr (JObj [(''arch'', JStr ''amd64'')])
                        else Inr (JArr [JInt 1])),
      open_w = (\<lambda>n. None), py_str = (\<lambda>v. [])\<rparr>"

text \<open>Two artifacts whose directories differ and give the same file name.\<close>

definition art_slash :: pydict where
  "art_slash = [(''filepath'', JStr ''x/1.json''), (''dockerfiledirname'', JStr ''a/b'')]"

definition art_underscore :: pydict where
  "art_underscore = [(''filepath'', JStr ''x/2.json''), (''dockerfiledirname'', JStr ''a_b'')]"




section \<open>Strings: splitting and trimming\<close>

lemma split_nonempty: "split s c \<noteq> []"
  by (induction s) (auto split: list.splits)

lemma split_no_sep: "p \<in> set (split s c) \<Longrightarrow> c \<notin> set p"
  by (induction s arbitrary: p) (auto split: list.splits if_splits)

lemma split_append_sep: "split (a @ c # b) c = split a c @ split b c"
  by (induction a) (auto split: list.splits simp: split_nonempty)

lemma split_without_sep: "c \<notin> set s \<Longrightarrow> split s c = [s]"
  by (induction s) auto

lemma join_Cons_Cons: "join c ((a # p) # ps) = a # join c (p # ps)"
  by (cases ps) auto

lemma join_split: "join c (split s c) = s"
proof (induction s)
  case Nil
  show ?case by simp
next
  case (Cons a s)
  obtain p ps where ps: "split s c = p # ps"
    using split_nonempty [of s c] by (cases "split s c") auto
  show ?case
  proof (cases "a = c")
    case True
    with Cons ps show ?thesis by simp
  next
    case False
    with Cons ps show ?thesis by (simp add: join_Cons_Cons)
  qed
qed

lemma split_join: "ps \<noteq> [] \<Longrightarrow> \<forall>p\<in>set ps. c \<notin> set p \<Longrightarrow> split (join c ps) c = ps"
  by (induction c ps rule: join.induct) (auto simp: split_without_sep split_append_sep)

lemma strip_no_space_ends:
  "s \<noteq> [] \<Longrightarrow> \<not> isspace (hd s) \<Longrightarrow> \<not> isspace (last s) \<Longrightarrow> strip s = s"
proof -
  assume s: "s \<noteq> []" and h: "\<not> isspace (hd s)" and l: "\<not> isspace (last s)"
  have 1: "dropWhile isspace s = s"
    using h by (simp add: dropWhile_eq_self_iff)
  have 2: "dropWhile isspace (rev s) = rev s"
    using s l by (simp add: dropWhile_eq_self_iff hd_rev)
  show ?thesis
    by (simp add: strip_def 1 2)
qed

lemma strip_spec:
  "\<exists>l r. s = l @ strip s @ r \<and> (\<forall>c\<in>set l. isspace c) \<and> (\<forall>c\<in>set r. isspace c)
     \<and> (strip s \<noteq> [] \<longrightarrow> \<not> isspace (hd (strip s)) \<and> \<not> isspace (last (strip s)))"
proof -
  let ?l = "takeWhile isspace s"
  let ?m = "dropWhile isspace s"
  let ?r = "rev (takeWhile isspace (rev ?m))"
  have a: "s = ?l @ ?m" by simp
  have "strip s @ ?r = rev (takeWhile isspace (rev ?m) @ dropWhile isspace (rev ?m))"
    by (simp only: strip_def rev_append)
  also have "\<dots> = rev (rev ?m)"
    by (simp only: takeWhile_dropWhile_id)
  finally have b: "?m = strip s @ ?r" by simp
  have c: "\<forall>c\<in>set ?l. isspace c" by (meson set_takeWhileD)
  have d: "\<forall>c\<in>set ?r. isspace c" by (metis set_rev set_takeWhileD)
  have e: "strip s \<noteq> [] \<longrightarrow> \<not> isspace (last (strip s))"
    unfolding strip_def by (simp add: last_rev hd_dropWhile)
  have f: "strip s \<noteq> [] \<longrightarrow> \<not> isspace (hd (strip s))"
  proof
    assume ne: "strip s \<noteq> []"
    then have "hd ?m = hd (strip s)" using b by (metis hd_append2)
    moreover have "?m \<noteq> []" using b ne by (metis append_is_Nil_conv)
    ultimately show "\<not> isspace (hd (strip s))" by (metis hd_dropWhile)
  qed
  from a b c d e f show ?thesis
    by (metis append_assoc)
qed

section \<open>The variables taken from the environment\<close>

lemmas env_defs = env_world_def env_get_def CI_COMMIT_TAG_def CI_COMMIT_REF_SLUG_def
  CI_COMMIT_SHORT_SHA_def CI_COMMIT_REF_PROTECTED_def CI_PROJECT_ID_def

lemma tags_of_pieces:
  assumes "ps \<noteq> []" "\<forall>p\<in>set ps. CHR '','' \<notin> set p" "join CHR '','' ps = TAGS w"
  shows "tags_list w = map strip (filter (\<lambda>p. strip p \<noteq> []) ps)"
  using split_join [OF assms(1,2)] assms(3) by (simp add: tags_list_def)

lemma TAGS_unfold:
  "TAGS w = env_get w ''TAGS'' (env_get w ''CI_COMMIT_SHORT_SHA'' ''0000000'')
        @ (if CI_COMMIT_REF_SLUG w = [] then [] else '','' @ CI_COMMIT_REF_SLUG w)
        @ (if CI_COMMIT_TAG w = [] then [] else '','' @ CI_COMMIT_TAG w)"
  by (simp add: TAGS_def CI_COMMIT_SHORT_SHA_def Let_def)

lemma tags_list_last:
  assumes "CI_COMMIT_TAG w \<noteq> []" "CHR '','' \<notin> set (CI_COMMIT_TAG w)"
    "\<not> isspace (hd (CI_COMMIT_TAG w))" "\<not> isspace (last (CI_COMMIT_TAG w))"
  shows "tags_list w \<noteq> [] \<and> last (tags_list w) = CI_COMMIT_TAG w"
proof -
  obtain t1 where t: "TAGS w = t1 @ CHR '','' # CI_COMMIT_TAG w"
    using assms(1) by (simp add: TAGS_def Let_def)
  have s: "strip (CI_COMMIT_TAG w) = CI_COMMIT_TAG w"
    using assms by (simp add: strip_no_space_ends)
  have "split (TAGS w) CHR '','' = split t1 CHR '','' @ [CI_COMMIT_TAG w]"
    by (simp add: t split_append_sep split_without_sep assms(2))
  then have "tags_list w
      = map strip (filter (\<lambda>tag. strip tag \<noteq> []) (split t1 CHR '','')) @ [CI_COMMIT_TAG w]"
    using s assms(1) by (simp add: tags_list_def)
  then show ?thesis by simp
qed

text \<open>
  Claim C2, as the code has it. The string \<open>TAGS\<close> is the variable \<^verbatim>\<open>TAGS\<close> (the
  short SHA when it is unset), then a comma and the ref slug if the slug is not empty,
  then a comma and the commit tag if the tag is not empty. However that string is cut
  into pieces without a comma, the tag list is those pieces trimmed, the pieces that
  are empty after trimming left out, in order and with duplicates. A commit tag that is
  not empty, holds no comma and neither starts nor ends with whitespace is the last
  element of the list.
\<close>

theorem resolved_tag_list:
  "TAGS w = env_get w ''TAGS'' (env_get w ''CI_COMMIT_SHORT_SHA'' ''0000000'')
        @ (if CI_COMMIT_REF_SLUG w = [] then [] else '','' @ CI_COMMIT_REF_SLUG w)
        @ (if CI_COMMIT_TAG w = [] then [] else '','' @ CI_COMMIT_TAG w)
   \<and> (\<forall>ps. ps \<noteq> [] \<and> (\<forall>p\<in>set ps. CHR '','' \<notin> set p) \<and> join CHR '','' ps = TAGS w
          \<longrightarrow> tags_list w = map strip (filter (\<lambda>p. strip p \<noteq> []) ps))
   \<and> (CI_COMMIT_TAG w \<noteq> [] \<and> CHR '','' \<notin> set (CI_COMMIT_TAG w)
        \<and> \<not> isspace (hd (CI_COMMIT_TAG w)) \<and> \<not> isspace (last (CI_COMMIT_TAG w))
          \<longrightarrow> tags_list w \<noteq> [] \<and> last (tags_list w) = CI_COMMIT_TAG w)"
  using TAGS_unfold [of w] tags_of_pieces [of _ w] tags_list_last [of w] by blast

text \<open>With the ref slug \<^verbatim>\<open>main\<close> and the commit tag \<^verbatim>\<open>v1\<close> the list is the default
  short SHA, the slug and the tag.\<close>

theorem resolved_tag_list_witness:
  "tags_list tag_world = [''0000000'', ''main'', ''v1'']
   \<and> last (tags_list tag_world) = CI_COMMIT_TAG tag_world"
proof -
  have t: "CI_COMMIT_TAG tag_world = ''v1''"
    by (simp add: tag_world_def env_defs)
  have T: "TAGS tag_world = ''0000000,main,v1''"
    by (simp add: TAGS_def tag_world_def env_defs)
  note R = resolved_tag_list [of tag_world]
  from R have
    "[''0000000'', ''main'', ''v1''] \<noteq> []
       \<and> (\<forall>p\<in>set [''0000000'', ''main'', ''v1'']. CHR '','' \<notin> set p)
       \<and> join CHR '','' [''0000000'', ''main'', ''v1''] = TAGS tag_world
     \<longrightarrow> tags_list tag_world
          = map strip (filter (\<lambda>p. strip p \<noteq> []) [''0000000'', ''main'', ''v1''])"
    by blast
  then have 1: "tags_list tag_world = [''0000000'', ''main'', ''v1'']"
    by (simp add: T strip_def isspace_def)
  from R have 2: "last (tags_list tag_world) = CI_COMMIT_TAG tag_world"
    by (simp add: t isspace_def)
  from 1 2 show ?thesis by simp
qed

text \<open>Claim C2 as the specification words it fails: the commit tag \<^verbatim>\<open>a,b\<close> is not
  empty, and the list ends with \<^verbatim>\<open>b\<close>.\<close>

theorem commit_tag_last_counterexample:
  "CI_COMMIT_TAG comma_tag_world = ''a,b''
   \<and> tags_list comma_tag_world = [''0000000'', ''a'', ''b'']
   \<and> last (tags_list comma_tag_world) \<noteq> CI_COMMIT_TAG comma_tag_world"
  by (simp add: tags_list_def TAGS_def comma_tag_world_def env_defs strip_def isspace_def)

text \<open>
  Claim C3. The channel is \<^verbatim>\<open>release\<close> exactly when \<^verbatim>\<open>CI_COMMIT_REF_PROTECTED\<close> is
  the string \<^verbatim>\<open>true\<close> or \<^verbatim>\<open>CI_COMMIT_TAG\<close> is set to a string that is not empty;
  whenever it is not \<^verbatim>\<open>release\<close> it is \<^verbatim>\<open>prerelease\<close>.
\<close>

theorem channel_release_iff:
  "(TARGET_PROJECT w = ''release'')
     = (environ w ''CI_COMMIT_REF_PROTECTED'' = Some ''true''
        \<or> environ w ''CI_COMMIT_TAG'' \<notin> {None, Some []})
   \<and> (TARGET_PROJECT w \<noteq> ''release'') = (TARGET_PROJECT w = ''prerelease'')"
  by (auto simp: TARGET_PROJECT_def CI_COMMIT_REF_PROTECTED_def CI_COMMIT_TAG_def env_get_def
           split: option.splits)

text \<open>A protected ref without a tag is a release; a ref whose protection flag is
  \<^verbatim>\<open>True\<close>, with a capital, and without a tag is a prerelease.\<close>

theorem channel_release_iff_witness:
  "TARGET_PROJECT protected_world = ''release''
   \<and> TARGET_PROJECT capital_true_world = ''prerelease''"
proof -
  have "environ protected_world ''CI_COMMIT_REF_PROTECTED'' = Some ''true''"
    by (simp add: protected_world_def env_world_def)
  then have 1: "TARGET_PROJECT protected_world = ''release''"
    using channel_release_iff [of protected_world] by simp
  have "environ capital_true_world ''CI_COMMIT_REF_PROTECTED'' \<noteq> Some ''true''"
       "environ capital_true_world ''CI_COMMIT_TAG'' = None"
    by (simp_all add: capital_true_world_def env_world_def)
  then have 2: "TARGET_PROJECT capital_true_world = ''prerelease''"
    using channel_release_iff [of capital_true_world] by blast
  from 1 2 show ?thesis by simp
qed

section \<open>Grouping\<close>

lemma key_eq_refl: "key_eq a a"
  by (simp add: key_eq_def split: option.splits)





lemma group_append_member:
  "(k, as) \<in> set (group_append g d a) \<Longrightarrow> (k, as) \<in> set g \<or> (key_eq k d \<and> a \<in> set as)"
  by (induction g d a rule: group_append.induct) (auto split: if_splits simp: key_eq_refl)














section \<open>The manifest of one group\<close>

lemma get_arch_iff:
  "(dict_get a ''arch'' JNull = JStr x) = (map_of a ''arch'' = Some (JStr x))"
  by (simp add: dict_get_def split: option.splits)

lemma find_arch:
  "find (\<lambda>a. dict_get a ''arch'' JNull = JStr x) artifacts = first_with_arch x artifacts"
  by (induction artifacts) (simp_all add: get_arch_iff)

lemma ex_arch:
  "list_ex (\<lambda>a. dict_get a ''arch'' JNull = JStr x) artifacts = (first_with_arch x artifacts \<noteq> None)"
  by (induction artifacts) (simp_all add: get_arch_iff)

lemma first_with_arch_None:
  "(first_with_arch x artifacts = None) = (\<forall>a\<in>set artifacts. map_of a ''arch'' \<noteq> Some (JStr x))"
  by (induction artifacts) auto


lemma get_platform:
  "fmt w (dict_get a ''platform'' (JStr ''linux''))
     = (case map_of a ''platform'' of None \<Rightarrow> ''linux'' | Some v \<Rightarrow> fmt w v)"
  by (simp add: dict_get_def fmt_def split: option.splits)

lemma manifest_writes_entries:
  "manifest_writes w dirname artifacts =
     [''image: '' @ image_ref w dirname @ nl, ''tags:'' @ nl]
     @ map (\<lambda>t. ''  - '' @ dquote @ t @ dquote @ nl) (tags_list w)
     @ [''manifests:'' @ nl]
     @ platform_entry w dirname ''amd64'' artifacts
     @ platform_entry w dirname ''arm64'' artifacts"
  unfolding manifest_writes_def Let_def find_arch ex_arch platform_entry_def image_ref_def
  by (simp add: get_platform split: option.splits)

lemma startswith_Nil [simp]: "startswith s []"
  by (simp add: startswith_def)

lemma startswith_Cons_Cons [simp]: "startswith (c # s) (d # p) = (c = d \<and> startswith s p)"
  by (simp add: startswith_def)

lemma startswith_Nil_Cons [simp]: "\<not> startswith [] (d # p)"
  by (simp add: startswith_def)

lemma replace_char: "replace s [c] [d] = map (\<lambda>x. if x = c then d else x) s"
  by (induction s) (simp_all add: replace_def)

lemma safe_dirname_map:
  "safe_dirname dirname
     = map (\<lambda>c. if c = CHR ''/'' \<or> c = CHR 0x5C then CHR ''_'' else c) dirname"
  by (simp add: safe_dirname_def backslash_def replace_char)

lemma image_ref_plain:
  "image_ref plain_world d = ''test.location.com/prerelease/builds/UNKNOWN_PROJECT_ID/'' @ d @ ''/merged:0000000''"
  by (simp add: image_ref_def plain_world_def TARGET_PROJECT_def env_defs)

lemma tags_list_plain: "tags_list plain_world = [''0000000'']"
  by (simp add: tags_list_def TAGS_def plain_world_def env_defs strip_def isspace_def)

lemma platform_entry_lines:
  "platform_entry w dirname arch artifacts = []
   \<or> (\<exists>os. platform_entry w dirname arch artifacts =
          [''  - image: '' @ image_ref w dirname @ nl, ''    platform:'' @ nl,
           ''      architecture: '' @ arch @ nl, ''      os: '' @ os @ nl])"
  by (simp add: platform_entry_def split: option.splits)

lemma platform_entry_image_line:
  "l \<in> set (platform_entry w dirname arch artifacts) \<Longrightarrow> startswith l ''  - image: ''
     \<Longrightarrow> l = ''  - image: '' @ image_ref w dirname @ nl"
  using platform_entry_lines [of w dirname arch artifacts] by auto



text \<open>
  Claim C6. The image reference follows the template; the first line written is
  \<^verbatim>\<open>image:\<close> with it, every line of the file that starts a manifest entry carries
  the same reference, and an entry that is there is the first line behind a list dash,
  followed by a platform block.
\<close>

theorem image_references_identical:
  "image_ref w dirname =
     ''test.location.com/'' @ TARGET_PROJECT w @ ''/builds/'' @ CI_PROJECT_ID w @ ''/''
       @ dirname @ ''/merged:'' @ CI_COMMIT_SHORT_SHA w
   \<and> hd (manifest_writes w dirname artifacts) = ''image: '' @ image_ref w dirname @ nl
   \<and> (\<forall>l\<in>set (manifest_writes w dirname artifacts).
         startswith l ''  - image: '' \<longrightarrow> l = ''  - image: '' @ image_ref w dirname @ nl)
   \<and> (\<forall>arch. platform_entry w dirname arch artifacts \<noteq> [] \<longrightarrow>
         (\<exists>os. platform_entry w dirname arch artifacts =
            [''  - '' @ hd (manifest_writes w dirname artifacts),
             ''    platform:'' @ nl,
             ''      architecture: '' @ arch @ nl,
             ''      os: '' @ os @ nl]))"
proof (intro conjI ballI allI impI)
  show "image_ref w dirname =
     ''test.location.com/'' @ TARGET_PROJECT w @ ''/builds/'' @ CI_PROJECT_ID w @ ''/''
       @ dirname @ ''/merged:'' @ CI_COMMIT_SHORT_SHA w"
    by (rule image_ref_def)
next
  show h: "hd (manifest_writes w dirname artifacts) = ''image: '' @ image_ref w dirname @ nl"
    by (simp add: manifest_writes_entries)
  fix arch
  assume "platform_entry w dirname arch artifacts \<noteq> []"
  with platform_entry_lines [of w dirname arch artifacts]
  show "\<exists>os. platform_entry w dirname arch artifacts =
            [''  - '' @ hd (manifest_writes w dirname artifacts),
             ''    platform:'' @ nl,
             ''      architecture: '' @ arch @ nl,
             ''      os: '' @ os @ nl]"
    unfolding h by simp
next
  fix l
  assume l: "l \<in> set (manifest_writes w dirname artifacts)" and s: "startswith l ''  - image: ''"
  from l consider
      "l = ''image: '' @ image_ref w dirname @ nl" | "l = ''tags:'' @ nl"
    | t where "l = ''  - '' @ dquote @ t @ dquote @ nl" | "l = ''manifests:'' @ nl"
    | "l \<in> set (platform_entry w dirname ''amd64'' artifacts)"
    | "l \<in> set (platform_entry w dirname ''arm64'' artifacts)"
    unfolding manifest_writes_entries by auto
  then show "l = ''  - image: '' @ image_ref w dirname @ nl"
  proof cases
    case 1 with s show ?thesis by simp
  next
    case 2 with s show ?thesis by simp
  next
    case 3 with s show ?thesis by (simp add: dquote_def)
  next
    case 4 with s show ?thesis by simp
  next
    case 5 from this s show ?thesis by (rule platform_entry_image_line)
  next
    case 6 from this s show ?thesis by (rule platform_entry_image_line)
  qed
qed

theorem image_references_identical_witness:
  "hd (manifest_writes plain_world ''app'' [art_amd])
     = ''image: test.location.com/prerelease/builds/UNKNOWN_PROJECT_ID/app/merged:0000000'' @ nl
   \<and> manifest_writes plain_world ''app'' [art_amd] ! 4
     = ''  - image: test.location.com/prerelease/builds/UNKNOWN_PROJECT_ID/app/merged:0000000'' @ nl"
proof -
  note T = image_references_identical [of plain_world "''app''" "[art_amd]"]
  let ?l = "manifest_writes plain_world ''app'' [art_amd] ! 4"
  have len: "length (manifest_writes plain_world ''app'' [art_amd]) = 8"
    by (simp add: manifest_writes_def tags_list_plain art_amd_def dict_get_def)
  then have m: "?l \<in> set (manifest_writes plain_world ''app'' [art_amd])"
    by simp
  have s: "startswith ?l ''  - image: ''"
    by (simp add: manifest_writes_def tags_list_plain art_amd_def dict_get_def)
  from T m s have "?l = ''  - image: '' @ image_ref plain_world ''app'' @ nl"
    by blast
  moreover from T have "hd (manifest_writes plain_world ''app'' [art_amd])
      = ''image: '' @ image_ref plain_world ''app'' @ nl"
    by blast
  ultimately show ?thesis
    by (simp add: image_ref_plain)
qed

text \<open>
  Claim C10. For a group without an \<^verbatim>\<open>amd64\<close> and without an \<^verbatim>\<open>arm64\<close> artifact,
  when the file can be opened, the loop body returns and the file
  \<^verbatim>\<open>manifest_<safe_name>.yaml\<close> holds the image line, the tags and the line
  \<^verbatim>\<open>manifests:\<close>, and nothing after it.
\<close>

theorem manifest_without_platform_entries:
  assumes "\<forall>a\<in>set artifacts. map_of a ''arch'' \<noteq> Some (JStr ''amd64'')
                               \<and> map_of a ''arch'' \<noteq> Some (JStr ''arm64'')"
    and "open_w w (manifest_filename dirname) = None"
  shows "fst (write_manifest w (JStr dirname, artifacts) st) = Returned
     \<and> manifest_filename dirname = ''manifest_'' @ safe_dirname dirname @ ''.yaml''
     \<and> cwd (snd (write_manifest w (JStr dirname, artifacts) st)) (manifest_filename dirname)
       = Some (''image: test.location.com/'' @ TARGET_PROJECT w @ ''/builds/''
                 @ CI_PROJECT_ID w @ ''/'' @ dirname @ ''/merged:'' @ CI_COMMIT_SHORT_SHA w @ nl
               @ ''tags:'' @ nl
               @ concat (map (\<lambda>t. ''  - '' @ dquote @ t @ dquote @ nl) (tags_list w))
               @ ''manifests:'' @ nl)"
proof -
  from assms(1) have "first_with_arch ''amd64'' artifacts = None"
    "first_with_arch ''arm64'' artifacts = None"
    by (simp_all add: first_with_arch_None)
  then have "manifest_writes w dirname artifacts =
     [''image: '' @ image_ref w dirname @ nl, ''tags:'' @ nl]
     @ map (\<lambda>t. ''  - '' @ dquote @ t @ dquote @ nl) (tags_list w)
     @ [''manifests:'' @ nl]"
    by (simp add: manifest_writes_entries platform_entry_def)
  then have "concat (manifest_writes w dirname artifacts) =
      ''image: test.location.com/'' @ TARGET_PROJECT w @ ''/builds/''
                 @ CI_PROJECT_ID w @ ''/'' @ dirname @ ''/merged:'' @ CI_COMMIT_SHORT_SHA w @ nl
               @ ''tags:'' @ nl
               @ concat (map (\<lambda>t. ''  - '' @ dquote @ t @ dquote @ nl) (tags_list w))
               @ ''manifests:'' @ nl"
    by (simp add: image_ref_def)
  with assms(2) show ?thesis
    by (simp add: write_manifest_def py_print_def manifest_filename_def)
qed

theorem manifest_without_platform_entries_witness:
  "fst (write_manifest plain_world (JStr ''lib'', [art_s390x]) empty_state) = Returned
   \<and> cwd (snd (write_manifest plain_world (JStr ''lib'', [art_s390x]) empty_state))
        ''manifest_lib.yaml''
     = Some (''image: test.location.com/prerelease/builds/UNKNOWN_PROJECT_ID/lib/merged:0000000''
               @ nl @ ''tags:'' @ nl @ ''  - '' @ dquote @ ''0000000'' @ dquote @ nl
               @ ''manifests:'' @ nl)"
proof -
  have 1: "\<forall>a\<in>set [art_s390x]. map_of a ''arch'' \<noteq> Some (JStr ''amd64'')
                               \<and> map_of a ''arch'' \<noteq> Some (JStr ''arm64'')"
    by (simp add: art_s390x_def)
  have 2: "open_w plain_world (manifest_filename ''lib'') = None"
    by (simp add: plain_world_def env_world_def)
  have 3: "manifest_filename ''lib'' = ''manifest_lib.yaml''"
    by (simp add: manifest_filename_def safe_dirname_map)
  from manifest_without_platform_entries [OF 1 2, of empty_state] show ?thesis
    unfolding 3 tags_list_plain
    by (simp add: plain_world_def TARGET_PROJECT_def env_defs)
qed

section \<open>Loading\<close>

lemma load_paths_append:
  "load_paths w (ps @ qs) arts st =
     (case load_paths w ps arts st of
        (Returned, arts', st') \<Rightarrow> load_paths w qs arts' st'
      | (Raised e, arts', st') \<Rightarrow> (Raised e, arts', st'))"
  by (induction ps arbitrary: arts st) (auto split: prod.splits status.splits)

lemma load_files_paths:
  "load_files w dirpath files arts st =
     load_paths w (map (path_join dirpath) (filter (\<lambda>f. endswith f ''.json'') files)) arts st"
  by (induction files arbitrary: arts st) (auto split: prod.splits status.splits)

lemma load_walk_paths:
  "load_walk w walk arts st = load_paths w (json_paths walk) arts st"
proof (induction walk arbitrary: arts st)
  case Nil
  show ?case by (simp add: json_paths_def)
next
  case (Cons x walk)
  obtain dirpath dirs files where x: "x = (dirpath, dirs, files)" by (cases x)
  have j: "json_paths (x # walk) =
      map (path_join dirpath) (filter (\<lambda>f. endswith f ''.json'') files) @ json_paths walk"
    by (simp add: json_paths_def x)
  show ?case
    unfolding j load_paths_append
    by (simp add: x load_files_paths Cons.IH split: prod.splits status.splits)
qed

lemma try_load_skipped:
  "skipped w p \<Longrightarrow>
     try_load w p arts st = (Returned, arts, py_print (load_line w p) st)"
  by (auto simp: skipped_def try_load_def load_line_def)

lemma try_load_loaded:
  "json_load w p = Inr (JObj items) \<Longrightarrow>
     try_load w p arts st =
       (Returned, arts @ [dict_merge [(''filepath'', JStr p)] items], py_print (load_line w p) st)"
  by (simp add: try_load_def load_line_def)

lemma try_load_non_object:
  "json_load w p = Inr v \<Longrightarrow> \<forall>items. v \<noteq> JObj items \<Longrightarrow>
     try_load w p arts st = (Raised TypeError, arts, st)"
  by (cases v) (simp_all add: try_load_def)

lemma try_load_cwd:
  "try_load w p arts st = (r, arts', st') \<Longrightarrow> cwd st' = cwd st"
  by (auto simp: try_load_def py_print_def split: sum.splits json.splits prod.splits if_splits)

lemma load_paths_cwd:
  "load_paths w ps arts st = (r, arts', st') \<Longrightarrow> cwd st' = cwd st"
proof (induction ps arbitrary: arts st)
  case Nil
  then show ?case by simp
next
  case (Cons p ps)
  obtain r1 a1 s1 where t: "try_load w p arts st = (r1, a1, s1)"
    by (cases "try_load w p arts st") auto
  from try_load_cwd [OF t] have c: "cwd s1 = cwd st" .
  show ?case
  proof (cases r1)
    case Returned
    with Cons.prems t have "load_paths w ps a1 s1 = (r, arts', st')" by simp
    from Cons.IH [OF this] c show ?thesis by simp
  next
    case (Raised e)
    with Cons.prems t c show ?thesis by auto
  qed
qed


lemma load_paths_all_fine:
  "\<forall>p\<in>set ps. loaded w p \<or> skipped w p \<Longrightarrow>
     \<exists>arts'. load_paths w ps arts st
        = (Returned, arts', st\<lparr>stdout := stdout st @ map (load_line w) ps\<rparr>)"
proof (induction ps arbitrary: arts st)
  case Nil
  show ?case by simp
next
  case (Cons p ps)
  from Cons.prems have "loaded w p \<or> skipped w p" by simp
  then obtain a1 where t: "try_load w p arts st = (Returned, a1, py_print (load_line w p) st)"
    by (auto simp: loaded_def try_load_loaded try_load_skipped)
  from Cons.prems have "\<forall>p\<in>set ps. loaded w p \<or> skipped w p" by simp
  from Cons.IH [OF this, of a1 "py_print (load_line w p) st"] t
  show ?case by (auto simp: py_print_def)
qed

lemma load_paths_non_object_raises:
  "p \<in> set ps \<Longrightarrow> json_load w p = Inr v \<Longrightarrow> \<forall>items. v \<noteq> JObj items \<Longrightarrow>
     \<exists>e. fst (load_paths w ps arts st) = Raised e"
proof (induction ps arbitrary: arts st)
  case Nil
  then show ?case by simp
next
  case (Cons q ps)
  obtain r1 a1 s1 where t: "try_load w q arts st = (r1, a1, s1)"
    by (cases "try_load w q arts st") auto
  show ?case
  proof (cases r1)
    case (Raised e)
    with t show ?thesis by simp
  next
    case Returned
    have "q \<noteq> p"
    proof
      assume "q = p"
      with Cons.prems t Returned show False by (simp add: try_load_non_object)
    qed
    with Cons.prems have "p \<in> set ps" by simp
    from Cons.IH [OF this Cons.prems(2,3), of a1 s1] t Returned show ?thesis by simp
  qed
qed

lemma try_load_only_TypeError:
  "\<forall>e m. json_load w p = Inl (e, m) \<longrightarrow> e = JSONDecodeError \<or> e = OSError \<Longrightarrow>
     fst (try_load w p arts st) = Raised e' \<Longrightarrow> e' = TypeError"
  by (auto simp: try_load_def split: sum.splits json.splits if_splits)

lemma load_paths_only_TypeError:
  "\<forall>q\<in>set ps. \<forall>e m. json_load w q = Inl (e, m) \<longrightarrow> e = JSONDecodeError \<or> e = OSError \<Longrightarrow>
     fst (load_paths w ps arts st) = Raised e' \<Longrightarrow> e' = TypeError"
proof (induction ps arbitrary: arts st)
  case Nil
  then show ?case by simp
next
  case (Cons q ps)
  obtain r1 a1 s1 where t: "try_load w q arts st = (r1, a1, s1)"
    by (cases "try_load w q arts st") auto
  show ?case
  proof (cases r1)
    case (Raised e)
    with t Cons.prems(2) have f: "fst (try_load w q arts st) = Raised e'" by simp
    from Cons.prems(1)
    have c: "\<forall>e m. json_load w q = Inl (e, m) \<longrightarrow> e = JSONDecodeError \<or> e = OSError"
      by simp
    from try_load_only_TypeError [OF c f] show ?thesis .
  next
    case Returned
    with t Cons.prems(2) have "fst (load_paths w ps a1 s1) = Raised e'" by simp
    with Cons.IH [of a1 s1] Cons.prems(1) show ?thesis by simp
  qed
qed



lemma print_tree_entry_cwd: "cwd (print_tree_entry topdir x st) = cwd st"
proof -
  have f: "cwd (fold (\<lambda>f. py_print (pre @ f)) files s) = cwd s" for pre files s
    by (induction files arbitrary: s) (simp_all add: py_print_def)
  obtain dirpath dirs files where "x = (dirpath, dirs, files)" by (cases x)
  then show ?thesis
    by (simp add: print_tree_entry_def Let_def f py_print_def)
qed

lemma print_tree_cwd: "cwd (print_tree topdir walk st) = cwd st"
  unfolding print_tree_def
  by (induction walk arbitrary: st) (simp_all add: print_tree_entry_cwd)

lemma after_listing_cwd: "cwd (after_listing w st) = cwd st"
  by (simp add: after_listing_def print_tree_cwd py_print_def)

lemma main_unfold:
  "main w st =
     (case load_paths w (json_paths (os_walk w (KANIKO_ARTIFACTS_DIR w))) [] (after_listing w st) of
        (Raised e, build_artifacts, st3) \<Rightarrow> (Raised e, st3)
      | (Returned, build_artifacts, st3) \<Rightarrow>
          if build_artifacts = []
          then (Returned, py_print ''No valid JSON artifacts found. Exiting.'' st3)
          else (case group_artifacts [] build_artifacts of
                  Inl e \<Rightarrow> (Raised e, py_print (''TAGS: '' @ TAGS w) st3)
                | Inr grouped_by_dir \<Rightarrow>
                    write_all w grouped_by_dir (py_print (''TAGS: '' @ TAGS w) st3)))"
  unfolding main_def Let_def load_walk_paths after_listing_def
  by (simp split: prod.splits status.splits)

lemma endswith_json_simps:
  "endswith ''a.json'' ''.json''" "endswith ''b.json'' ''.json''"
  "\<not> endswith ''notes.txt'' ''.json''"
  "endswith ''ok.json'' ''.json''" "endswith ''list.json'' ''.json''"
  by (simp_all add: endswith_def)



text \<open>
  Claim C9. When \<^verbatim>\<open>json.load\<close> returns a value that is not a dict for one of the
  files, the run ends with an exception and has written no file. The exception is
  \<open>TypeError\<close> when no load raises an exception that the handler lets through. When
  the files before that one are all loaded or skipped, the exception is \<open>TypeError\<close>
  and the output ends with their lines: nothing is printed for the file itself.
\<close>

theorem non_object_json_aborts:
  assumes "p \<in> set (json_paths (os_walk w (KANIKO_ARTIFACTS_DIR w)))"
    and "json_load w p = Inr v"
    and "\<forall>items. v \<noteq> JObj items"
  shows "(\<exists>e. fst (main w st) = Raised e)
     \<and> cwd (snd (main w st)) = cwd st
     \<and> ((\<forall>q \<in> set (json_paths (os_walk w (KANIKO_ARTIFACTS_DIR w))).
            \<forall>e m. json_load w q = Inl (e, m) \<longrightarrow> e = JSONDecodeError \<or> e = OSError)
          \<longrightarrow> fst (main w st) = Raised TypeError)
     \<and> (\<forall>pre post.
            json_paths (os_walk w (KANIKO_ARTIFACTS_DIR w)) = pre @ p # post
              \<and> (\<forall>q \<in> set pre. loaded w q \<or> skipped w q)
          \<longrightarrow> fst (main w st) = Raised TypeError
              \<and> stdout (snd (main w st)) =
                  stdout (after_listing w st) @ map (load_line w) pre)"
proof -
  let ?D = "KANIKO_ARTIFACTS_DIR w"
  let ?ps = "json_paths (os_walk w ?D)"
  let ?st2 = "after_listing w st"
  obtain r arts st3 where L: "load_paths w ?ps [] ?st2 = (r, arts, st3)"
    by (cases "load_paths w ?ps [] ?st2") auto
  from load_paths_non_object_raises [OF assms, of "[]" ?st2] L
  obtain e where r: "r = Raised e" by auto
  have M: "main w st = (Raised e, st3)"
    unfolding main_unfold by (simp add: L r)
  have c: "cwd st3 = cwd st"
    using load_paths_cwd [OF L] by (simp add: after_listing_cwd)
  have 1: "\<exists>e. fst (main w st) = Raised e" by (simp add: M)
  have 2: "cwd (snd (main w st)) = cwd st" by (simp add: M c)
  have 3: "fst (main w st) = Raised TypeError"
    if "\<forall>q \<in> set ?ps. \<forall>e m. json_load w q = Inl (e, m) \<longrightarrow> e = JSONDecodeError \<or> e = OSError"
  proof -
    have "fst (load_paths w ?ps [] ?st2) = Raised e" by (simp add: L r)
    from load_paths_only_TypeError [OF that this] show ?thesis by (simp add: M)
  qed
  have 4: "fst (main w st) = Raised TypeError
      \<and> stdout (snd (main w st)) = stdout ?st2 @ map (load_line w) pre"
    if "?ps = pre @ p # post \<and> (\<forall>q \<in> set pre. loaded w q \<or> skipped w q)" for pre post
  proof -
    from that have ps: "?ps = pre @ p # post" and f: "\<forall>q \<in> set pre. loaded w q \<or> skipped w q"
      by simp_all
    from load_paths_all_fine [OF f, of "[]" ?st2] obtain a1 where
      "load_paths w pre [] ?st2
        = (Returned, a1, ?st2\<lparr>stdout := stdout ?st2 @ map (load_line w) pre\<rparr>)"
      by blast
    then have "load_paths w ?ps [] ?st2
        = (Raised TypeError, a1, ?st2\<lparr>stdout := stdout ?st2 @ map (load_line w) pre\<rparr>)"
      unfolding ps load_paths_append
      by (simp add: try_load_non_object [OF assms(2,3)])
    with L r have "e = TypeError"
      "st3 = ?st2\<lparr>stdout := stdout ?st2 @ map (load_line w) pre\<rparr>"
      by simp_all
    with M show ?thesis by simp
  qed
  from 1 2 3 4 show ?thesis by blast
qed

theorem non_object_json_aborts_witness:
  "fst (main array_world empty_state) = Raised TypeError
   \<and> cwd (snd (main array_world empty_state)) = Map.empty
   \<and> stdout (snd (main array_world empty_state)) =
       [''Traversing directory: artifacts/kaniko-build'',
        ''kaniko-build/'', ''    ok.json'', ''    list.json'',
        ''Valid JSON found: artifacts/kaniko-build/ok.json'']"
proof -
  have D: "KANIKO_ARTIFACTS_DIR array_world = ''artifacts/kaniko-build''"
    by (simp add: KANIKO_ARTIFACTS_DIR_def env_get_def array_world_def)
  have W: "os_walk array_world ''artifacts/kaniko-build'' =
      [(''artifacts/kaniko-build'', [], [''ok.json'', ''list.json''])]"
    by (simp add: array_world_def)
  have J: "json_paths (os_walk array_world ''artifacts/kaniko-build'') =
      [''artifacts/kaniko-build/ok.json''] @ ''artifacts/kaniko-build/list.json'' # []"
    unfolding W by (simp add: json_paths_def endswith_json_simps path_join_def os_sep_def endswith_def)
  have 1: "''artifacts/kaniko-build/list.json''
      \<in> set (json_paths (os_walk array_world (KANIKO_ARTIFACTS_DIR array_world)))"
    unfolding D J by simp
  have 2: "json_load array_world ''artifacts/kaniko-build/list.json'' = Inr (JArr [JInt 1])"
    by (simp add: array_world_def)
  have 3: "\<forall>items. JArr [JInt 1] \<noteq> JObj items" by simp
  have 4: "\<forall>q \<in> set [''artifacts/kaniko-build/ok.json'']. loaded array_world q \<or> skipped array_world q"
    by (simp add: loaded_def array_world_def)
  have A: "stdout (after_listing array_world empty_state) =
      [''Traversing directory: artifacts/kaniko-build'',
        ''kaniko-build/'', ''    ok.json'', ''    list.json'']"
    unfolding after_listing_def D W
    by (simp add: print_tree_def print_tree_entry_def py_print_def empty_state_def
        replace_def count_char_def basename_def os_sep_def Let_def eval_nat_numeral)
  have L: "load_line array_world ''artifacts/kaniko-build/ok.json''
      = ''Valid JSON found: artifacts/kaniko-build/ok.json''"
    by (simp add: load_line_def array_world_def)
  note T = non_object_json_aborts [OF 1 2 3, of empty_state]
  from T have c: "cwd (snd (main array_world empty_state)) = cwd empty_state" by blast
  from T J 4 have "fst (main array_world empty_state) = Raised TypeError
      \<and> stdout (snd (main array_world empty_state)) =
          stdout (after_listing array_world empty_state)
          @ map (load_line array_world) [''artifacts/kaniko-build/ok.json'']"
    unfolding D by blast
  with c show ?thesis
    unfolding A by (simp add: L empty_state_def)
qed

section \<open>Writing the files\<close>

lemma write_all_append:
  "write_all w (gs @ gs') st =
     (case write_all w gs st of
        (Returned, st') \<Rightarrow> write_all w gs' st'
      | (Raised e, st') \<Rightarrow> (Raised e, st'))"
  by (induction gs arbitrary: st) (auto split: prod.splits status.splits)

lemma write_manifest_ok:
  "open_w w (manifest_filename d) = None \<Longrightarrow>
     fst (write_manifest w (JStr d, as) st) = Returned
     \<and> cwd (snd (write_manifest w (JStr d, as) st))
         = (cwd st)(manifest_filename d \<mapsto> concat (manifest_writes w d as))"
  by (simp add: write_manifest_def py_print_def)

lemma can_write_all_Cons:
  "can_write_all w (g # gs) =
     ((\<exists>d. fst g = JStr d \<and> open_w w (manifest_filename d) = None) \<and> can_write_all w gs)"
  by (cases g) (simp add: can_write_all_def)

lemma can_write_all_append:
  "can_write_all w (gs @ gs') = (can_write_all w gs \<and> can_write_all w gs')"
  by (auto simp: can_write_all_def)

lemma write_all_ok: "can_write_all w gs \<Longrightarrow> fst (write_all w gs st) = Returned"
proof (induction gs arbitrary: st)
  case Nil
  show ?case by simp
next
  case (Cons g gs)
  from Cons.prems obtain d as where g: "g = (JStr d, as)"
    and o: "open_w w (manifest_filename d) = None" and r: "can_write_all w gs"
    by (cases g) (auto simp: can_write_all_Cons)
  obtain st' where "write_manifest w g st = (Returned, st')"
    using write_manifest_ok [OF o, of as st] g by (cases "write_manifest w g st") auto
  with Cons.IH [OF r, of st'] show ?case by simp
qed

lemma write_all_other_files:
  "can_write_all w gs \<Longrightarrow>
   \<forall>(k, as) \<in> set gs. \<forall>d. k = JStr d \<longrightarrow> manifest_filename d \<noteq> f \<Longrightarrow>
     cwd (snd (write_all w gs st)) f = cwd st f"
proof (induction gs arbitrary: st)
  case Nil
  show ?case by simp
next
  case (Cons g gs)
  from Cons.prems(1) obtain d as where g: "g = (JStr d, as)"
    and o: "open_w w (manifest_filename d) = None" and r: "can_write_all w gs"
    by (cases g) (auto simp: can_write_all_Cons)
  from Cons.prems(2) g have n: "manifest_filename d \<noteq> f"
    and n': "\<forall>(k, as) \<in> set gs. \<forall>d. k = JStr d \<longrightarrow> manifest_filename d \<noteq> f"
    by auto
  obtain st' where m: "write_manifest w g st = (Returned, st')"
    and c: "cwd st' = (cwd st)(manifest_filename d \<mapsto> concat (manifest_writes w d as))"
    using write_manifest_ok [OF o, of as st] g by (cases "write_manifest w g st") auto
  from Cons.IH [OF r n', of st'] m c n show ?case by simp
qed

text \<open>
  Claim C8. The file name of a group is \<^verbatim>\<open>manifest_\<close>, the key with every \<^verbatim>\<open>/\<close>
  and every backslash replaced by \<^verbatim>\<open>_\<close>, and \<^verbatim>\<open>.yaml\<close>. When two groups of the
  list have the same file name and no group after the second one has it, and every file
  can be opened, the loop returns and the file holds what was written for the second
  group.
\<close>

theorem later_group_overwrites:
  assumes "groups = gs1 @ (JStr d1, as1) # gs2 @ (JStr d2, as2) # gs3"
    and "can_write_all w groups"
    and "manifest_filename d1 = manifest_filename d2"
    and "\<forall>(k, as) \<in> set gs3. \<forall>d. k = JStr d \<longrightarrow> manifest_filename d \<noteq> manifest_filename d2"
  shows "manifest_filename dirname =
           ''manifest_''
           @ map (\<lambda>c. if c = CHR ''/'' \<or> c = CHR 0x5C then CHR ''_'' else c) dirname
           @ ''.yaml''
     \<and> fst (write_all w groups st) = Returned
     \<and> cwd (snd (write_all w groups st)) (manifest_filename d1)
         = Some (concat (manifest_writes w d2 as2))"
proof -
  let ?pre = "gs1 @ (JStr d1, as1) # gs2"
  have g: "groups = ?pre @ [(JStr d2, as2)] @ gs3"
    by (simp add: assms(1))
  from assms(2) have p: "can_write_all w ?pre" and o: "open_w w (manifest_filename d2) = None"
    and q: "can_write_all w gs3"
    unfolding g by (simp_all add: can_write_all_append can_write_all_Cons)
  obtain sa where a: "write_all w ?pre st = (Returned, sa)"
    using write_all_ok [OF p, of st] by (cases "write_all w ?pre st") auto
  obtain sb where b: "write_manifest w (JStr d2, as2) sa = (Returned, sb)"
    and cb: "cwd sb = (cwd sa)(manifest_filename d2 \<mapsto> concat (manifest_writes w d2 as2))"
    using write_manifest_ok [OF o, of as2 sa]
    by (cases "write_manifest w (JStr d2, as2) sa") auto
  have "write_all w (?pre @ (JStr d2, as2) # gs3) st = write_all w gs3 sb"
    using write_all_append [of w ?pre "(JStr d2, as2) # gs3" st] by (simp add: a b)
  then have w: "write_all w groups st = write_all w gs3 sb"
    by (simp add: g)
  have 1: "fst (write_all w groups st) = Returned"
    by (rule write_all_ok [OF assms(2)])
  have 2: "cwd (snd (write_all w groups st)) (manifest_filename d1)
      = Some (concat (manifest_writes w d2 as2))"
    unfolding w assms(3) using write_all_other_files [OF q assms(4), of sb] cb by simp
  have 3: "manifest_filename dirname =
           ''manifest_''
           @ map (\<lambda>c. if c = CHR ''/'' \<or> c = CHR 0x5C then CHR ''_'' else c) dirname
           @ ''.yaml''"
    by (simp add: manifest_filename_def safe_dirname_map)
  from 1 2 3 show ?thesis by simp
qed

text \<open>The keys \<^verbatim>\<open>a/b\<close> and \<^verbatim>\<open>a_b\<close> share the file \<^verbatim>\<open>manifest_a_b.yaml\<close>,
  which ends up with the reference of \<^verbatim>\<open>a_b\<close>.\<close>

theorem later_group_overwrites_witness:
  "manifest_filename ''a/b'' = ''manifest_a_b.yaml''
   \<and> manifest_filename ''a_b'' = ''manifest_a_b.yaml''
   \<and> fst (write_all plain_world [(JStr ''a/b'', [art_slash]), (JStr ''a_b'', [art_underscore])]
            empty_state) = Returned
   \<and> cwd (snd (write_all plain_world [(JStr ''a/b'', [art_slash]), (JStr ''a_b'', [art_underscore])]
                 empty_state)) ''manifest_a_b.yaml''
       = Some (''image: test.location.com/prerelease/builds/UNKNOWN_PROJECT_ID/a_b/merged:0000000''
                 @ nl @ ''tags:'' @ nl @ ''  - '' @ dquote @ ''0000000'' @ dquote @ nl
                 @ ''manifests:'' @ nl)"
proof -
  let ?groups = "[(JStr ''a/b'', [art_slash]), (JStr ''a_b'', [art_underscore])]"
  have f1: "manifest_filename ''a/b'' = ''manifest_a_b.yaml''"
    and f2: "manifest_filename ''a_b'' = ''manifest_a_b.yaml''"
    by (simp_all add: manifest_filename_def safe_dirname_map)
  have 1: "?groups = [] @ (JStr ''a/b'', [art_slash]) # [] @ (JStr ''a_b'', [art_underscore]) # []"
    by simp
  have 2: "can_write_all plain_world ?groups"
    by (simp add: can_write_all_def plain_world_def env_world_def)
  have 3: "manifest_filename ''a/b'' = manifest_filename ''a_b''"
    by (simp add: f1 f2)
  have 4: "\<forall>(k, as) \<in> set []. \<forall>d. k = JStr d \<longrightarrow> manifest_filename d \<noteq> manifest_filename ''a_b''"
    by simp
  have c: "concat (manifest_writes plain_world ''a_b'' [art_underscore]) =
      ''image: test.location.com/prerelease/builds/UNKNOWN_PROJECT_ID/a_b/merged:0000000''
                 @ nl @ ''tags:'' @ nl @ ''  - '' @ dquote @ ''0000000'' @ dquote @ nl
                 @ ''manifests:'' @ nl"
    by (simp add: manifest_writes_entries platform_entry_def image_ref_plain tags_list_plain
        art_underscore_def)
  from later_group_overwrites [OF 1 2 3 4, of "''a/b''" empty_state] show ?thesis
    unfolding f1 f2 c by simp
qed

section \<open>Whole runs\<close>



lemma extend_simps [simp]:
  "stdout (extend st d) = stdout st @ stdout d" "cwd (extend st d) = cwd st ++ cwd d"
  by (simp_all add: extend_def)























end
